theory Spec2Isabelle
  imports Complex_Main
begin

section \<open>Data model of the Crimson interpreter\<close>

text \<open>
  The interpreter of \<^verbatim>\<open>Crimson.cpp\<close> is one class: a lexer (\<^verbatim>\<open>tokenize\<close>) and a fused
  parser and executor that walks the token vector with one cursor (\<^verbatim>\<open>currentToken\<close>).
  Tokens, variables and functions are the structs of the source; the fields \<^verbatim>\<open>type\<close>
  and \<^verbatim>\<open>value\<close> carry a prefix here.
\<close>

datatype TokenType =
  IDENTIFIER | NUMBER | STRING | KEYWORD | OPERATOR | DELIMITER | COMMENT | END_OF_FILE

datatype DataType = INT_TYPE | FLOAT_TYPE | BOOL_TYPE | STRING_TYPE | VOID_TYPE

record Token =
  tok_type :: TokenType
  tok_value :: string
  line :: int
  column :: int

record Variable =
  var_type :: DataType
  var_value :: string

record Function =
  returnType :: DataType
  parameters :: "string list"
  body :: "Token list"

definition mkToken :: "TokenType \<Rightarrow> string \<Rightarrow> int \<Rightarrow> int \<Rightarrow> Token" where
  "mkToken t v l c = \<lparr>tok_type = t, tok_value = v, line = l, column = c\<rparr>"

definition mkVariable :: "DataType \<Rightarrow> string \<Rightarrow> Variable" where
  "mkVariable t v = \<lparr>var_type = t, var_value = v\<rparr>"

text \<open>The constructor \<^verbatim>\<open>Function(rt, params)\<close> leaves \<^verbatim>\<open>body\<close> empty.\<close>

definition mkFunction :: "DataType \<Rightarrow> string list \<Rightarrow> Function" where
  "mkFunction rt params = \<lparr>returnType = rt, parameters = params, body = []\<rparr>"

text \<open>
  The state of a run: the members of \<^verbatim>\<open>CrimsonInterpreter\<close>, and the three streams and
  the clock the intrinsics act on. \<^verbatim>\<open>cout\<close> and \<^verbatim>\<open>cerr\<close> hold the bytes written so far,
  \<^verbatim>\<open>cin\<close> the lines not yet read, \<^verbatim>\<open>slept\<close> the durations of the sleeps made.
\<close>

record Interp =
  variables :: "string \<rightharpoonup> Variable"
  functionTable :: "string \<rightharpoonup> Function"
  tokens :: "Token list"
  currentToken :: nat
  currentFile :: string
  cout :: string
  cerr :: string
  cin :: "string list"
  slept :: "int list"

text \<open>
  The exceptions of \<^verbatim>\<open>std::stod\<close> and \<^verbatim>\<open>std::stoi\<close>. Nothing in the source catches
  them: a throw ends the run, and the state at the throw is kept with it.
\<close>

datatype exn = invalid_argument | out_of_range

type_synonym 'a exec = "(exn \<times> Interp) + 'a"

abbreviation dquote :: char where "dquote \<equiv> CHR 0x22"
abbreviation newline :: char where "newline \<equiv> CHR 0x0A"
abbreviation backslash :: char where "backslash \<equiv> CHR 0x5C"

section \<open>Lexer\<close>

text \<open>The character classes of \<^verbatim>\<open><cctype>\<close> in the C locale.\<close>

definition isspace :: "char \<Rightarrow> bool" where
  "isspace c = (c \<in> set [CHR '' '', CHR 0x09, CHR 0x0A, CHR 0x0B, CHR 0x0C, CHR 0x0D])"

definition isdigit :: "char \<Rightarrow> bool" where
  "isdigit c = (c \<in> set ''0123456789'')"

definition isalpha :: "char \<Rightarrow> bool" where
  "isalpha c = (c \<in> set ''abcdefghijklmnopqrstuvwxyzABCDEFGHIJKLMNOPQRSTUVWXYZ'')"

definition isalnum :: "char \<Rightarrow> bool" where
  "isalnum c = (isalpha c \<or> isdigit c)"

definition keywordSet :: "string list" where
  "keywordSet = [''int'', ''float'', ''bool'', ''string'', ''void'', ''if'', ''else'', ''switch'',
     ''main'', ''include'', ''true'', ''false'', ''else if'']"

definition builtinFunctions :: "string list" where
  "builtinFunctions = [''crym'', ''inp'', ''Sleep'']"

text \<open>
  \<^verbatim>\<open>std::getline\<close> over the whole text: the lines between newline characters; a last
  line without a newline is a line, the empty text after the last newline is not.
\<close>

fun getlines :: "string \<Rightarrow> string \<Rightarrow> string list" where
  "getlines acc [] = (if acc = [] then [] else [rev acc])"
| "getlines acc (c # cs) =
     (if c = newline then rev acc # getlines [] cs else getlines (c # acc) cs)"

text \<open>
  The scan of a string literal after its opening quote: the number of characters up to
  and with the closing quote; a backslash skips the character after it.
\<close>

fun string_end :: "string \<Rightarrow> nat" where
  "string_end [] = 0"
| "string_end [c] = 1"
| "string_end (c # d # cs) =
     (if c = dquote then 1
      else if c = backslash then 2 + string_end cs
      else 1 + string_end (d # cs))"

definition is_op_char :: "char \<Rightarrow> bool" where
  "is_op_char c = (c \<in> set ''+-*/=!<>&|'')"

definition is_double_op :: "char \<Rightarrow> char \<Rightarrow> bool" where
  "is_double_op c d =
     ((c = CHR ''='' \<and> d = CHR ''='') \<or> (c = CHR ''!'' \<and> d = CHR ''='') \<or>
      (c = CHR ''<'' \<and> d = CHR ''='') \<or> (c = CHR ''>'' \<and> d = CHR ''='') \<or>
      (c = CHR ''&'' \<and> d = CHR ''&'') \<or> (c = CHR ''|'' \<and> d = CHR ''|''))"

definition is_delim_char :: "char \<Rightarrow> bool" where
  "is_delim_char c = (c \<in> set ''(){};,'')"

text \<open>
  The inner loop of \<^verbatim>\<open>tokenize\<close> on one line: \<open>pos\<close> is the column, the list is the
  line from \<open>pos\<close> on. The cases are those of the source, in its order.
\<close>

function scan_line :: "int \<Rightarrow> nat \<Rightarrow> string \<Rightarrow> Token list" where
  "scan_line lno pos [] = []"
| "scan_line lno pos (c # cs) =
     (if isspace c then scan_line lno (pos + 1) cs
      else if c = CHR ''/'' \<and> cs \<noteq> [] \<and> hd cs = CHR ''/''
        then [mkToken COMMENT (c # cs) lno (int pos)]
      else if c = CHR ''#''
        then [mkToken KEYWORD (c # cs) lno (int pos)]
      else if c = dquote
        then (let n = string_end cs in
              mkToken STRING (c # take n cs) lno (int pos)
                # scan_line lno (pos + 1 + n) (drop n cs))
      else if isdigit c \<or> c = CHR ''.''
        then (let w = takeWhile (\<lambda>x. isdigit x \<or> x = CHR ''.'') cs in
              mkToken NUMBER (c # w) lno (int pos)
                # scan_line lno (pos + 1 + length w)
                    (dropWhile (\<lambda>x. isdigit x \<or> x = CHR ''.'') cs))
      else if isalpha c \<or> c = CHR ''_''
        then (let w = takeWhile (\<lambda>x. isalnum x \<or> x = CHR ''_'') cs;
                  word = c # w in
              mkToken (if word \<in> set keywordSet then KEYWORD else IDENTIFIER) word lno (int pos)
                # scan_line lno (pos + 1 + length w)
                    (dropWhile (\<lambda>x. isalnum x \<or> x = CHR ''_'') cs))
      else if is_op_char c
        then (if cs \<noteq> [] \<and> is_double_op c (hd cs)
              then mkToken OPERATOR [c, hd cs] lno (int pos) # scan_line lno (pos + 2) (tl cs)
              else mkToken OPERATOR [c] lno (int pos) # scan_line lno (pos + 1) cs)
      else if is_delim_char c
        then mkToken DELIMITER [c] lno (int pos) # scan_line lno (pos + 1) cs
      else scan_line lno (pos + 1) cs)"
  by pat_completeness auto
termination
proof (relation "measure (\<lambda>(lno, pos, s). length s)")
  show "wf (measure (\<lambda>(lno, pos, s). length s))" by simp
qed (simp_all add: less_Suc_eq_le length_dropWhile_le)

fun scan_lines :: "int \<Rightarrow> string list \<Rightarrow> Token list" where
  "scan_lines lno [] = [mkToken END_OF_FILE [] lno 0]"
| "scan_lines lno (l # ls) = scan_line lno 0 l @ scan_lines (lno + 1) ls"

definition tokenize :: "string \<Rightarrow> Token list" where
  "tokenize code = scan_lines 1 (getlines [] code)"

section \<open>Library functions the interpreter calls\<close>

fun digits_val :: "nat \<Rightarrow> string \<Rightarrow> nat" where
  "digits_val acc [] = acc"
| "digits_val acc (c # cs) = digits_val (10 * acc + (of_char c - 48)) cs"

text \<open>
  \<^verbatim>\<open>std::stoi\<close> in base 10 with a 32-bit \<^verbatim>\<open>int\<close>: leading white space, an optional
  sign, then digits; \<^verbatim>\<open>invalid_argument\<close> when there is no digit, \<^verbatim>\<open>out_of_range\<close> when
  the number does not fit. What follows the digits is ignored.
\<close>

definition stoi :: "string \<Rightarrow> exn + int" where
  "stoi str =
     (let s1 = dropWhile isspace str;
          neg = (s1 \<noteq> [] \<and> hd s1 = CHR ''-'');
          s2 = (if s1 \<noteq> [] \<and> (hd s1 = CHR ''-'' \<or> hd s1 = CHR ''+'') then tl s1 else s1);
          ds = takeWhile isdigit s2
      in if ds = [] then Inl invalid_argument
         else (let n = (if neg then - int (digits_val 0 ds) else int (digits_val 0 ds))
               in if n < - 2147483648 \<or> 2147483647 < n then Inl out_of_range else Inr n))"

text \<open>
  \<^verbatim>\<open>std::stod\<close> is a parameter of the model, \<open>stod :: string \<Rightarrow> exn + 'd\<close>: the type \<open>'d\<close>
  stands for \<^verbatim>\<open>double\<close> with its comparisons \<open><\<close> and \<open>\<le>\<close>, of which nothing is assumed.
  \<open>stod_dec\<close> is the instance the examples run with: it reads plain decimal text (white
  space, a sign, digits with an optional fraction) to its exact value and throws
  \<^verbatim>\<open>invalid_argument\<close> where there is no digit. It leaves out exponents, hexadecimal
  text, infinities and NaN, rounding and range errors.
\<close>

definition stod_dec :: "string \<Rightarrow> exn + rat" where
  "stod_dec str =
     (let s1 = dropWhile isspace str;
          neg = (s1 \<noteq> [] \<and> hd s1 = CHR ''-'');
          s2 = (if s1 \<noteq> [] \<and> (hd s1 = CHR ''-'' \<or> hd s1 = CHR ''+'') then tl s1 else s1);
          ip = takeWhile isdigit s2;
          rest = dropWhile isdigit s2;
          fp = (if rest \<noteq> [] \<and> hd rest = CHR ''.'' then takeWhile isdigit (tl rest) else [])
      in if ip = [] \<and> fp = [] then Inl invalid_argument
         else (let m = of_nat (digits_val 0 ip) + of_nat (digits_val 0 fp) / 10 ^ length fp
               in Inr (if neg then - m else m)))"

section \<open>Cursor and expressions\<close>

definition tokAt :: "Interp \<Rightarrow> Token" where
  "tokAt s = tokens s ! currentToken s"

definition inRange :: "Interp \<Rightarrow> bool" where
  "inRange s = (currentToken s < length (tokens s))"

text \<open>The test \<^verbatim>\<open>currentToken < tokens.size() && tokens[currentToken].value == v\<close>.\<close>

definition valueIs :: "Interp \<Rightarrow> string \<Rightarrow> bool" where
  "valueIs s v = (inRange s \<and> tok_value (tokAt s) = v)"

definition advance :: "Interp \<Rightarrow> Interp" where
  "advance s = s\<lparr>currentToken := currentToken s + 1\<rparr>"

definition parseExpression :: "Interp \<Rightarrow> string \<times> Interp" where
  "parseExpression s =
     (if length (tokens s) \<le> currentToken s then ([], s)
      else if tok_type (tokAt s) = STRING then (tok_value (tokAt s), advance s)
      else if tok_type (tokAt s) = NUMBER then (tok_value (tokAt s), advance s)
      else if tok_type (tokAt s) = IDENTIFIER then
        (case variables s (tok_value (tokAt s)) of
           Some v \<Rightarrow> (var_value v, advance s)
         | None \<Rightarrow> (tok_value (tokAt s), advance s))
      else if tok_type (tokAt s) = KEYWORD \<and>
              (tok_value (tokAt s) = ''true'' \<or> tok_value (tokAt s) = ''false'')
        then (tok_value (tokAt s), advance s)
      else ([], s))"

definition evaluateBooleanValue :: "string \<Rightarrow> bool" where
  "evaluateBooleanValue v =
     (if v = ''true'' then True
      else if v = ''false'' then False
      else if v = ''0'' then False
      else if v = [] then False
      else True)"

text \<open>
  Both operands of an ordering comparison go through \<^verbatim>\<open>std::stod\<close>; a throw of either
  leaves the comparison. (C++ does not fix which operand is converted first; the model
  converts the left one first.)
\<close>

definition stod2 ::
  "(string \<Rightarrow> exn + 'd) \<Rightarrow> ('d \<Rightarrow> 'd \<Rightarrow> bool) \<Rightarrow> string \<Rightarrow> string \<Rightarrow> exn + bool" where
  "stod2 stod f left right =
     (case stod left of
        Inl e \<Rightarrow> Inl e
      | Inr a \<Rightarrow> (case stod right of Inl e \<Rightarrow> Inl e | Inr b \<Rightarrow> Inr (f a b)))"

definition evaluateComparison ::
  "(string \<Rightarrow> exn + 'd::ord) \<Rightarrow> string \<Rightarrow> string \<Rightarrow> string \<Rightarrow> exn + bool" where
  "evaluateComparison stod left op right =
     (if op = ''=='' then Inr (left = right)
      else if op = ''!='' then Inr (left \<noteq> right)
      else if op = ''<'' then stod2 stod (\<lambda>a b. a < b) left right
      else if op = ''>'' then stod2 stod (\<lambda>a b. a > b) left right
      else if op = ''<='' then stod2 stod (\<lambda>a b. a \<le> b) left right
      else if op = ''>='' then stod2 stod (\<lambda>a b. a \<ge> b) left right
      else Inr False)"

definition evaluateCondition ::
  "(string \<Rightarrow> exn + 'd::ord) \<Rightarrow> Interp \<Rightarrow> (bool \<times> Interp) exec" where
  "evaluateCondition stod s =
     (if length (tokens s) \<le> currentToken s then Inr (False, s)
      else (let (left, s1) = parseExpression s in
        if length (tokens s1) \<le> currentToken s1 then Inr (False, s1)
        else (let (op, s2) = (if tok_type (tokAt s1) = OPERATOR
                              then (tok_value (tokAt s1), advance s1) else ([], s1)) in
          if op = [] then Inr (evaluateBooleanValue left, s2)
          else (let (right, s3) = parseExpression s2 in
            case evaluateComparison stod left op right of
              Inl e \<Rightarrow> Inl (e, s3)
            | Inr b \<Rightarrow> Inr (b, s3)))))"

section \<open>Statements\<close>

function include_loop :: "Token list \<Rightarrow> nat \<Rightarrow> string \<Rightarrow> string \<times> nat" where
  "include_loop ts i libName =
     (if i < length ts \<and> tok_type (ts ! i) \<noteq> DELIMITER
      then include_loop ts (i + 1) (libName @ tok_value (ts ! i))
      else (libName, i))"
  by pat_completeness auto
termination
  by (relation "measure (\<lambda>(ts, i, libName). length ts - i)") auto

declare include_loop.simps [simp del]

definition parseInclude :: "Interp \<Rightarrow> Interp" where
  "parseInclude s =
     (let s1 = advance s in
      if inRange s1 \<and> tok_type (tokAt s1) = DELIMITER \<and> tok_value (tokAt s1) = ''<'' then
        (let s2 = advance s1;
             (libName, i) = include_loop (tokens s2) (currentToken s2) [];
             s3 = s2\<lparr>currentToken := i\<rparr>;
             s4 = (if valueIs s3 ''>'' then advance s3 else s3)
         in s4\<lparr>cout := cout s4 @ ''Including library: '' @ libName @ [newline]\<rparr>)
      else s1)"

definition getDataType :: "string \<Rightarrow> DataType" where
  "getDataType ty =
     (if ty = ''int'' then INT_TYPE
      else if ty = ''float'' then FLOAT_TYPE
      else if ty = ''bool'' then BOOL_TYPE
      else if ty = ''string'' then STRING_TYPE
      else VOID_TYPE)"

fun defaultValue :: "DataType \<Rightarrow> string" where
  "defaultValue INT_TYPE = ''0''"
| "defaultValue FLOAT_TYPE = ''0.0''"
| "defaultValue BOOL_TYPE = ''false''"
| "defaultValue STRING_TYPE = []"
| "defaultValue VOID_TYPE = []"

definition parseVariableDeclaration :: "Interp \<Rightarrow> Interp" where
  "parseVariableDeclaration s =
     (let ty = getDataType (tok_value (tokAt s));
          s1 = advance s in
      if inRange s1 \<and> tok_type (tokAt s1) = IDENTIFIER then
        (let varName = tok_value (tokAt s1);
             s2 = advance s1;
             s3 = (if valueIs s2 ''='' then
                     (let (v, s') = parseExpression (advance s2) in
                      s'\<lparr>variables := (variables s')(varName \<mapsto> mkVariable ty v)\<rparr>)
                   else s2\<lparr>variables := (variables s2)(varName \<mapsto> mkVariable ty (defaultValue ty))\<rparr>)
         in if valueIs s3 '';'' then advance s3 else s3)
      else s1)"

function params_loop :: "Token list \<Rightarrow> nat \<Rightarrow> string list \<Rightarrow> string list \<times> nat" where
  "params_loop ts i params =
     (if i < length ts \<and> tok_value (ts ! i) \<noteq> '')'' then
        (if tok_type (ts ! i) = IDENTIFIER
         then params_loop ts (i + 1) (params @ [tok_value (ts ! i)])
         else params_loop ts (i + 1) params)
      else (params, i))"
  by pat_completeness auto
termination
  by (relation "measure (\<lambda>(ts, i, params). length ts - i)") auto

declare params_loop.simps [simp del]

definition countBrace :: "string \<Rightarrow> int \<Rightarrow> int" where
  "countBrace v braceCount =
     (if v = ''{'' then braceCount + 1 else if v = ''}'' then braceCount - 1 else braceCount)"

function body_loop :: "Token list \<Rightarrow> nat \<Rightarrow> int \<Rightarrow> Token list \<Rightarrow> Token list \<times> nat" where
  "body_loop ts i braceCount bd =
     (if i < length ts \<and> 0 < braceCount then
        (let bc = countBrace (tok_value (ts ! i)) braceCount in
         if 0 < bc then body_loop ts (i + 1) bc (bd @ [ts ! i])
         else body_loop ts i bc bd)
      else (bd, i))"
  by pat_completeness auto
termination
  by (relation "measure (\<lambda>(ts, i, bc, bd). 2 * (length ts - i) + (if 0 < bc then 1 else 0))")
    auto

declare body_loop.simps [simp del]

text \<open>
  The body of a declared function is collected into the local vector \<^verbatim>\<open>body\<close>, and the
  table entry is built by \<^verbatim>\<open>Function(VOID_TYPE, parameters)\<close>: the local is dropped.
\<close>

definition parseFunctionDeclaration :: "Interp \<Rightarrow> Interp" where
  "parseFunctionDeclaration s =
     (let s1 = advance s in
      if inRange s1 \<and> tok_type (tokAt s1) = IDENTIFIER then
        (let funcName = tok_value (tokAt s1);
             s2 = advance s1 in
         if valueIs s2 ''('' then
           (let s3 = advance s2;
                (params, i) = params_loop (tokens s3) (currentToken s3) [];
                s4 = s3\<lparr>currentToken := i\<rparr>;
                s5 = (if valueIs s4 '')'' then advance s4 else s4) in
            if valueIs s5 ''{'' then
              (let s6 = advance s5;
                   (bd, j) = body_loop (tokens s6) (currentToken s6) 1 [];
                   s7 = s6\<lparr>currentToken := j\<rparr>;
                   s8 = (if valueIs s7 ''}'' then advance s7 else s7)
               in s8\<lparr>functionTable := (functionTable s8)(funcName \<mapsto> mkFunction VOID_TYPE params)\<rparr>)
            else s5)
         else s2)
      else s1)"

text \<open>Strips one pair of surrounding double quotes.\<close>

definition unquote :: "string \<Rightarrow> string" where
  "unquote m =
     (if 2 \<le> length m \<and> hd m = dquote \<and> last m = dquote
      then take (length m - 2) (drop 1 m) else m)"

definition executeFunction :: "string \<Rightarrow> string list \<Rightarrow> Interp \<Rightarrow> Interp exec" where
  "executeFunction funcName args s =
     (if funcName = ''crym'' then
        (if args \<noteq> [] then Inr (s\<lparr>cout := cout s @ unquote (hd args) @ [newline]\<rparr>)
         else Inr s)
      else if funcName = ''inp'' then
        (if args \<noteq> [] then Inr (s\<lparr>cout := cout s @ unquote (hd args), cin := drop 1 (cin s)\<rparr>)
         else Inr s)
      else if funcName = ''Sleep'' then
        (if args \<noteq> [] then
           (case stoi (hd args) of
              Inl e \<Rightarrow> Inl (e, s)
            | Inr seconds \<Rightarrow> Inr (s\<lparr>slept := slept s @ [seconds]\<rparr>))
         else Inr s)
      else if functionTable s funcName \<noteq> None then
        Inr (s\<lparr>cout := cout s @ ''Executing function: '' @ funcName @ [newline]\<rparr>)
      else Inr s)"

function args_loop ::
  "Token list \<Rightarrow> (string \<rightharpoonup> Variable) \<Rightarrow> nat \<Rightarrow> string list \<Rightarrow> string list \<times> nat" where
  "args_loop ts vars i args =
     (if i < length ts \<and> tok_value (ts ! i) \<noteq> '')'' then
        (if tok_type (ts ! i) = STRING \<or> tok_type (ts ! i) = NUMBER
           then args_loop ts vars (i + 1) (args @ [tok_value (ts ! i)])
         else if tok_type (ts ! i) = IDENTIFIER
           then (case vars (tok_value (ts ! i)) of
                   Some v \<Rightarrow> args_loop ts vars (i + 1) (args @ [var_value v])
                 | None \<Rightarrow> args_loop ts vars (i + 1) (args @ [tok_value (ts ! i)]))
         else args_loop ts vars (i + 1) args)
      else (args, i))"
  by pat_completeness auto
termination
  by (relation "measure (\<lambda>(ts, vars, i, args). length ts - i)") auto

declare args_loop.simps [simp del]

definition parseStatement :: "Interp \<Rightarrow> Interp exec" where
  "parseStatement s =
     (if inRange s \<and> tok_type (tokAt s) = IDENTIFIER then
        (let identifier = tok_value (tokAt s);
             s1 = advance s in
         if valueIs s1 ''('' then
           (let s2 = advance s1;
                (args, i) = args_loop (tokens s2) (variables s2) (currentToken s2) [];
                s3 = s2\<lparr>currentToken := i\<rparr>;
                s4 = (if valueIs s3 '')'' then advance s3 else s3) in
            case executeFunction identifier args s4 of
              Inl e \<Rightarrow> Inl e
            | Inr s5 \<Rightarrow> Inr (if valueIs s5 '';'' then advance s5 else s5))
         else Inr s1)
      else Inr s)"

function skipBlock_loop :: "Token list \<Rightarrow> nat \<Rightarrow> int \<Rightarrow> nat" where
  "skipBlock_loop ts i braceCount =
     (if i < length ts \<and> 0 < braceCount
      then skipBlock_loop ts (i + 1) (countBrace (tok_value (ts ! i)) braceCount)
      else i)"
  by pat_completeness auto
termination
  by (relation "measure (\<lambda>(ts, i, bc). length ts - i)") auto

declare skipBlock_loop.simps [simp del]

definition skipBlock :: "Interp \<Rightarrow> Interp" where
  "skipBlock s = s\<lparr>currentToken := skipBlock_loop (tokens s) (currentToken s) 1\<rparr>"

section \<open>Blocks and conditionals\<close>

text \<open>
  \<^verbatim>\<open>parseIfStatement\<close> and \<^verbatim>\<open>parseBlock\<close> call each other, and every loop of theirs
  goes on from the cursor a nested call left. They are defined with fuel: every call
  and every loop iteration takes one unit, and \<open>None\<close> is the answer of a run that had
  too little. \<open>fuel_enough\<close> below shows that \<open>2 * length (tokens s) + 2\<close> units are enough
  for every state.

  \<open>closeBlock\<close> is the end of \<^verbatim>\<open>parseBlock\<close>, after its loop: it skips the closing brace.
  \<open>ifChain\<close> is the \<^verbatim>\<open>while\<close> loop of \<^verbatim>\<open>parseIfStatement\<close> over the \<^verbatim>\<open>else\<close> branches,
  with the flag \<^verbatim>\<open>executed\<close>.
\<close>

definition closeBlock :: "Interp exec option \<Rightarrow> Interp exec option" where
  "closeBlock r =
     (case r of
        Some (Inr s) \<Rightarrow> Some (Inr (if valueIs s ''}'' then advance s else s))
      | _ \<Rightarrow> r)"

definition isTypeName :: "string \<Rightarrow> bool" where
  "isTypeName v = (v = ''int'' \<or> v = ''float'' \<or> v = ''bool'' \<or> v = ''string'')"

fun parseIfStatement :: "nat \<Rightarrow> (string \<Rightarrow> exn + 'd::ord) \<Rightarrow> Interp \<Rightarrow> Interp exec option"
  and ifChain :: "nat \<Rightarrow> (string \<Rightarrow> exn + 'd::ord) \<Rightarrow> bool \<Rightarrow> Interp \<Rightarrow> Interp exec option"
  and parseBlock_loop :: "nat \<Rightarrow> (string \<Rightarrow> exn + 'd::ord) \<Rightarrow> int \<Rightarrow> Interp \<Rightarrow> Interp exec option"
where
  "parseIfStatement 0 stod s = None"
| "parseIfStatement (Suc n) stod s =
     (let s1 = advance s in
      if valueIs s1 ''('' then
        (case evaluateCondition stod (advance s1) of
           Inl e \<Rightarrow> Some (Inl e)
         | Inr (condition, s3) \<Rightarrow>
             if valueIs s3 '')'' then
               (if valueIs (advance s3) ''{'' then
                  (if condition then
                     (case closeBlock (parseBlock_loop n stod 1 (advance (advance s3))) of
                        None \<Rightarrow> None
                      | Some (Inl e) \<Rightarrow> Some (Inl e)
                      | Some (Inr s6) \<Rightarrow> ifChain n stod True s6)
                   else ifChain n stod False (skipBlock (advance (advance s3))))
                else Some (Inr (advance s3)))
             else Some (Inr s3))
      else Some (Inr s1))"
| "ifChain 0 stod executed s = None"
| "ifChain (Suc n) stod executed s =
     (if inRange s \<and> tok_type (tokAt s) = KEYWORD \<and> tok_value (tokAt s) = ''else'' then
        (let s1 = advance s in
         if valueIs s1 ''if'' then
           (if valueIs (advance s1) ''('' then
              (case evaluateCondition stod (advance (advance s1)) of
                 Inl e \<Rightarrow> Some (Inl e)
               | Inr (elseIfCondition, s4) \<Rightarrow>
                   if valueIs s4 '')'' then
                     (if valueIs (advance s4) ''{'' then
                        (if \<not> executed \<and> elseIfCondition then
                           (case closeBlock (parseBlock_loop n stod 1 (advance (advance s4))) of
                              None \<Rightarrow> None
                            | Some (Inl e) \<Rightarrow> Some (Inl e)
                            | Some (Inr s7) \<Rightarrow> ifChain n stod True s7)
                         else ifChain n stod executed (skipBlock (advance (advance s4))))
                      else ifChain n stod executed (advance s4))
                   else ifChain n stod executed s4)
            else ifChain n stod executed (advance s1))
         else if valueIs s1 ''{'' then
           (if \<not> executed then closeBlock (parseBlock_loop n stod 1 (advance s1))
            else Some (Inr (skipBlock (advance s1))))
         else ifChain n stod executed s1)
      else Some (Inr s))"
| "parseBlock_loop 0 stod braceCount s = None"
| "parseBlock_loop (Suc n) stod braceCount s =
     (if inRange s \<and> 0 < braceCount then
        (let bc = countBrace (tok_value (tokAt s)) braceCount in
         if 0 < bc then
           (if tok_type (tokAt s) = KEYWORD then
              (if isTypeName (tok_value (tokAt s))
                 then parseBlock_loop n stod bc (parseVariableDeclaration s)
               else if tok_value (tokAt s) = ''void''
                 then parseBlock_loop n stod bc (parseFunctionDeclaration s)
               else if tok_value (tokAt s) = ''if''
                 then (case parseIfStatement n stod s of
                         None \<Rightarrow> None
                       | Some (Inl e) \<Rightarrow> Some (Inl e)
                       | Some (Inr s') \<Rightarrow> parseBlock_loop n stod bc s')
               else parseBlock_loop n stod bc (advance s))
            else if tok_type (tokAt s) = IDENTIFIER
              then (case parseStatement s of
                      Inl e \<Rightarrow> Some (Inl e)
                    | Inr s' \<Rightarrow> parseBlock_loop n stod bc s')
            else parseBlock_loop n stod bc (advance s))
         else parseBlock_loop n stod bc s)
      else Some (Inr s))"

definition parseBlock :: "nat \<Rightarrow> (string \<Rightarrow> exn + 'd::ord) \<Rightarrow> Interp \<Rightarrow> Interp exec option" where
  "parseBlock n stod s = closeBlock (parseBlock_loop n stod 1 s)"

section \<open>The run\<close>

function show_nat :: "nat \<Rightarrow> string" where
  "show_nat n =
     (if n < 10 then [char_of (48 + n)] else show_nat (n div 10) @ [char_of (48 + n mod 10)])"
  by pat_completeness auto
termination
  by (relation "measure (\<lambda>n. n)") auto

declare show_nat.simps [simp del]

definition show_int :: "int \<Rightarrow> string" where
  "show_int i = (if i < 0 then CHR ''-'' # show_nat (nat (- i)) else show_nat (nat i))"

definition isMainStart :: "Token list \<Rightarrow> nat \<Rightarrow> bool" where
  "isMainStart ts i =
     (tok_type (ts ! i) = KEYWORD \<and>
      (tok_value (ts ! i) = ''void'' \<or> tok_value (ts ! i) = ''int'') \<and>
      i + 1 < length ts \<and> tok_value (ts ! (i + 1)) = ''main'')"

text \<open>The first loop: the first index that starts \<^verbatim>\<open>void main\<close> or \<^verbatim>\<open>int main\<close>.\<close>

definition findMainStart :: "Token list \<Rightarrow> nat option" where
  "findMainStart ts = find (isMainStart ts) [0..<length ts]"

text \<open>The second loop: the index of the brace that closes main, or 0.\<close>

function findMainEnd :: "Token list \<Rightarrow> nat \<Rightarrow> int \<Rightarrow> bool \<Rightarrow> nat" where
  "findMainEnd ts i braceCount inMainFunction =
     (if i < length ts then
        (if tok_value (ts ! i) = ''main'' \<and> i + 1 < length ts \<and> tok_value (ts ! (i + 1)) = ''(''
           then findMainEnd ts (i + 1) braceCount True
         else if inMainFunction then
           (if tok_value (ts ! i) = ''{''
              then findMainEnd ts (i + 1) (braceCount + 1) inMainFunction
            else if tok_value (ts ! i) = ''}''
              then (if braceCount - 1 = 0 then i
                    else findMainEnd ts (i + 1) (braceCount - 1) inMainFunction)
            else findMainEnd ts (i + 1) braceCount inMainFunction)
         else findMainEnd ts (i + 1) braceCount inMainFunction)
      else 0)"
  by pat_completeness auto
termination
  by (relation "measure (\<lambda>(ts, i, bc, b). length ts - i)") auto

declare findMainEnd.simps [simp del]

definition isIntrinsicOutside :: "Token list \<Rightarrow> nat \<Rightarrow> nat \<Rightarrow> nat \<Rightarrow> bool" where
  "isIntrinsicOutside ts mainStart mainEnd i =
     ((i < mainStart \<or> mainEnd < i) \<and> tok_type (ts ! i) = IDENTIFIER \<and>
      (tok_value (ts ! i) = ''crym'' \<or> tok_value (ts ! i) = ''Sleep'' \<or>
       tok_value (ts ! i) = ''inp''))"

definition findOutside :: "Token list \<Rightarrow> nat \<Rightarrow> nat \<Rightarrow> nat option" where
  "findOutside ts mainStart mainEnd = find (isIntrinsicOutside ts mainStart mainEnd) [0..<length ts]"

definition noMainMessage :: string where
  "noMainMessage =
     ''Error: No main function found. Code must be inside void main() or int main() to execute.''"

definition notClosedMessage :: string where
  "notClosedMessage = ''Error: Main function not properly closed with }''"

definition outsideMessage :: "int \<Rightarrow> string" where
  "outsideMessage l = ''Error: Line '' @ show_int l @
     '': Code outside main function is not allowed. All executable code must be inside main().''"

definition report :: "string \<Rightarrow> Interp \<Rightarrow> Interp" where
  "report msg s = s\<lparr>cerr := cerr s @ msg @ [newline]\<rparr>"

text \<open>The loop of \<^verbatim>\<open>parseAndExecute\<close> over the statements of main.\<close>

fun exec_loop :: "nat \<Rightarrow> (string \<Rightarrow> exn + 'd::ord) \<Rightarrow> nat \<Rightarrow> Interp \<Rightarrow> Interp exec option" where
  "exec_loop 0 stod mainEnd s = None"
| "exec_loop (Suc n) stod mainEnd s =
     (if inRange s \<and> currentToken s \<le> mainEnd \<and> tok_type (tokAt s) \<noteq> END_OF_FILE then
        (if tok_type (tokAt s) = COMMENT then exec_loop n stod mainEnd (advance s)
         else if tok_type (tokAt s) = KEYWORD \<and> tok_value (tokAt s) = ''#include''
           then exec_loop n stod mainEnd (parseInclude s)
         else if tok_type (tokAt s) = KEYWORD \<and> isTypeName (tok_value (tokAt s))
           then exec_loop n stod mainEnd (parseVariableDeclaration s)
         else if tok_type (tokAt s) = KEYWORD \<and> tok_value (tokAt s) = ''void''
           then exec_loop n stod mainEnd (parseFunctionDeclaration s)
         else if tok_type (tokAt s) = KEYWORD \<and> tok_value (tokAt s) = ''if''
           then (case parseIfStatement n stod s of
                   None \<Rightarrow> None
                 | Some (Inl e) \<Rightarrow> Some (Inl e)
                 | Some (Inr s') \<Rightarrow> exec_loop n stod mainEnd s')
         else if tok_type (tokAt s) = IDENTIFIER
           then (case parseStatement s of
                   Inl e \<Rightarrow> Some (Inl e)
                 | Inr s' \<Rightarrow> exec_loop n stod mainEnd s')
         else exec_loop n stod mainEnd (advance s))
      else Some (Inr s))"

definition parseAndExecute ::
  "(string \<Rightarrow> exn + 'd::ord) \<Rightarrow> Token list \<Rightarrow> Interp \<Rightarrow> Interp exec option" where
  "parseAndExecute stod toks s =
     (let s0 = s\<lparr>tokens := toks, currentToken := 0\<rparr> in
      case findMainStart toks of
        None \<Rightarrow> Some (Inr (report noMainMessage s0))
      | Some mainStart \<Rightarrow>
          (let mainEnd = findMainEnd toks mainStart 0 False in
           if mainEnd = 0 then Some (Inr (report notClosedMessage s0))
           else (case findOutside toks mainStart mainEnd of
                   Some i \<Rightarrow> Some (Inr (report (outsideMessage (line (toks ! i))) s0))
                 | None \<Rightarrow>
                     exec_loop (2 * length toks + 2) stod mainEnd
                       (s0\<lparr>currentToken := mainStart\<rparr>))))"

text \<open>The file system is a map from paths to contents; a path it does not map cannot be opened.\<close>

definition runFile ::
  "(string \<Rightarrow> exn + 'd::ord) \<Rightarrow> (string \<rightharpoonup> string) \<Rightarrow> string \<Rightarrow> Interp \<Rightarrow> Interp exec option" where
  "runFile stod fs filename s =
     (case fs filename of
        None \<Rightarrow> Some (Inr (report (''Error: Could not open file '' @ filename) s))
      | Some code \<Rightarrow> parseAndExecute stod (tokenize code) (s\<lparr>currentFile := filename\<rparr>))"

text \<open>
  The process: \<open>argv\<close> with the program's name first, the file system and the lines of
  standard input. It ends by returning from \<^verbatim>\<open>main\<close> with an exit code, or in
  \<^verbatim>\<open>std::terminate\<close> on an exception nothing caught.
\<close>

datatype Status = Exited int | Terminated exn

definition npos :: nat where
  "npos = 2 ^ 64 - 1"

definition find_last_of :: "string \<Rightarrow> char \<Rightarrow> nat" where
  "find_last_of str c =
     (case filter (\<lambda>i. str ! i = c) (rev [0..<length str]) of [] \<Rightarrow> npos | i # _ \<Rightarrow> i)"

text \<open>
  The extension test of \<^verbatim>\<open>main\<close>: \<^verbatim>\<open>filename.substr(filename.find_last_of(".") + 1)\<close>.
  \<^verbatim>\<open>find_last_of\<close> answers \<^verbatim>\<open>npos\<close>, the largest \<^verbatim>\<open>size_t\<close>, when there is no dot, and
  the sum wraps around to 0. \<^verbatim>\<open>substr\<close> throws only for a position beyond the end of
  the text, which never is the case here (\<open>extension_pos_le\<close> below).
\<close>

definition extension_pos :: "string \<Rightarrow> nat" where
  "extension_pos filename = (find_last_of filename CHR ''.'' + 1) mod 2 ^ 64"

definition extensionOf :: "string \<Rightarrow> string" where
  "extensionOf filename = drop (extension_pos filename) filename"

definition initial :: "string list \<Rightarrow> Interp" where
  "initial stdin = \<lparr>variables = Map.empty, functionTable = Map.empty, tokens = [],
     currentToken = 0, currentFile = [], cout = [], cerr = [], cin = stdin, slept = []\<rparr>"

definition say :: "string \<Rightarrow> Interp \<Rightarrow> Interp" where
  "say msg s = s\<lparr>cout := cout s @ msg @ [newline]\<rparr>"

text \<open>
  How the process ends after \<^verbatim>\<open>runFile\<close>: \<^verbatim>\<open>main\<close> returns 0 whatever \<^verbatim>\<open>runFile\<close> did,
  and an exception that left \<^verbatim>\<open>runFile\<close> leaves \<^verbatim>\<open>main\<close> too.
\<close>

fun finish :: "Interp exec \<Rightarrow> Status \<times> Interp" where
  "finish (Inl (e, s)) = (Terminated e, s)"
| "finish (Inr s) = (Exited 0, s)"

definition main ::
  "(string \<Rightarrow> exn + 'd::ord) \<Rightarrow> (string \<rightharpoonup> string) \<Rightarrow> string list \<Rightarrow> string list \<Rightarrow>
     (Status \<times> Interp) option" where
  "main stod fs argv stdin =
     (if length argv \<noteq> 2
        then Some (Exited 1, say ''Usage: crimson_interpreter <filename.crm>'' (initial stdin))
      else if extensionOf (argv ! 1) \<noteq> ''crm''
        then Some (Exited 1, say ''Error: File must have .crm extension'' (initial stdin))
      else map_option finish (runFile stod fs (argv ! 1) (initial stdin)))"

text \<open>What a run shows outside: how it ended, and the bytes on the two output streams.\<close>

definition observe :: "(Status \<times> Interp) option \<Rightarrow> (Status \<times> string \<times> string) option" where
  "observe r = map_option (\<lambda>(st, s). (st, cout s, cerr s)) r"

section \<open>Relations between the states of a run\<close>

text \<open>
  \<open>moved s s'\<close>: the state \<open>s'\<close> is \<open>s\<close> with the cursor somewhere else, and nothing else
  changed. \<open>keeps s s'\<close>: the token vector and the error stream are those of \<open>s\<close>, and the
  cursor did not go back. \<open>okres s r\<close> says so of a result: a returned state keeps \<open>s\<close>, a
  thrown one has its error stream. \<open>rest s\<close> counts the tokens from the cursor on, and
  \<open>fine enough s x\<close> is \<open>okres\<close> for a run with fuel: it ran out only if \<open>enough\<close> is false.
\<close>

definition moved :: "Interp \<Rightarrow> Interp \<Rightarrow> bool" where
  "moved s s' = (s' = s\<lparr>currentToken := currentToken s'\<rparr>)"

definition keeps :: "Interp \<Rightarrow> Interp \<Rightarrow> bool" where
  "keeps s s' = (tokens s' = tokens s \<and> cerr s' = cerr s \<and> currentToken s \<le> currentToken s')"

definition okres :: "Interp \<Rightarrow> Interp exec \<Rightarrow> bool" where
  "okres s r = (case r of Inl (e, s') \<Rightarrow> cerr s' = cerr s | Inr s' \<Rightarrow> keeps s s')"

definition rest :: "Interp \<Rightarrow> nat" where
  "rest s = length (tokens s) - currentToken s"

definition fine :: "bool \<Rightarrow> Interp \<Rightarrow> Interp exec option \<Rightarrow> bool" where
  "fine enough s x = (case x of None \<Rightarrow> \<not> enough | Some r \<Rightarrow> okres s r)"

section \<open>Example programs\<close>

text \<open>
  Source texts the theorems below run, each as the file \<^verbatim>\<open>prog.crm\<close>. \<open>quoted\<close> writes a
  string literal; \<open>crimson fs path\<close> is the command \<^verbatim>\<open>crimson path\<close> with the files \<open>fs\<close>,
  no input, and \<open>stod_dec\<close> for \<^verbatim>\<open>std::stod\<close>.
\<close>

definition quoted :: "string \<Rightarrow> string" where
  "quoted s = dquote # s @ [dquote]"

definition crm_file :: "string \<Rightarrow> (string \<rightharpoonup> string)" where
  "crm_file code = [''prog.crm'' \<mapsto> code]"

definition crimson :: "(string \<rightharpoonup> string) \<Rightarrow> string \<Rightarrow> (Status \<times> string \<times> string) option" where
  "crimson fs path = observe (main stod_dec fs [''crimson'', path] [])"

definition prog_if_chain :: string where
  "prog_if_chain = ''void main() { if (1 > 2) { crym('' @ quoted ''A'' @ ''); } else if (1 < 2) { crym(''
     @ quoted ''B'' @ ''); } else { crym('' @ quoted ''C'' @ ''); } }''"

definition prog_else_if_evaluated :: string where
  "prog_else_if_evaluated = ''void main() { if (1 < 2) { crym('' @ quoted ''A''
     @ ''); } else if (x < 2) { crym('' @ quoted ''B'' @ ''); } }''"

definition prog_no_main :: string where
  "prog_no_main = ''int x = 3;''"

definition prog_include :: string where
  "prog_include = ''#include <io>'' @ [newline] @ ''void main() {'' @ [newline] @ ''}'' @ [newline]"

definition prog_outside :: string where
  "prog_outside = ''crym('' @ quoted ''x'' @ '');'' @ [newline] @ ''void main() { crym(''
     @ quoted ''y'' @ ''); }''"

definition prog_bad_compare :: string where
  "prog_bad_compare = ''void main() { if (abc < 1) { crym('' @ quoted ''t'' @ ''); } }''"

definition prog_text_compare :: string where
  "prog_text_compare = ''void main() { if ('' @ quoted ''1.0'' @ '' == '' @ quoted ''1''
     @ '') { crym('' @ quoted ''eq'' @ ''); } else { crym('' @ quoted ''neq'' @ ''); } }''"

definition prog_function :: string where
  "prog_function = ''void main() { void f(a) { crym('' @ quoted ''x'' @ ''); } f(1); }''"

definition prog_ran :: string where
  "prog_ran = ''void main() { crym('' @ quoted ''ran'' @ ''); }''"

definition prog_unknown_call :: string where
  "prog_unknown_call = ''void main() { g(1, 2); crym('' @ quoted ''after'' @ ''); }''"

text \<open>A state whose cursor stands on a closing parenthesis, with more tokens after it.\<close>

definition paren_state :: Interp where
  "paren_state = (initial [])\<lparr>tokens := [mkToken DELIMITER '')'' 1 0, mkToken END_OF_FILE [] 2 0]\<rparr>"

section \<open>Frames and progress\<close>

lemma moved_iff: "moved s s' \<longleftrightarrow> (\<exists>k. s' = s\<lparr>currentToken := k\<rparr>)"
  unfolding moved_def
proof
  assume "s' = s\<lparr>currentToken := currentToken s'\<rparr>"
  then show "\<exists>k. s' = s\<lparr>currentToken := k\<rparr>" ..
next
  assume "\<exists>k. s' = s\<lparr>currentToken := k\<rparr>"
  then obtain k where "s' = s\<lparr>currentToken := k\<rparr>" ..
  then show "s' = s\<lparr>currentToken := currentToken s'\<rparr>" by simp
qed

lemma moved_refl [simp]: "moved s s"
  by (simp add: moved_def)

lemma moved_trans: "moved s s1 \<Longrightarrow> moved s1 s2 \<Longrightarrow> moved s s2"
  by (auto simp: moved_iff)

lemma moved_advance [simp]: "moved s (advance s)"
  by (auto simp: moved_iff advance_def)

lemma moved_skipBlock [simp]: "moved s (skipBlock s)"
  by (auto simp: moved_iff skipBlock_def)

lemma moved_cursor [simp]: "moved s (s\<lparr>currentToken := k\<rparr>)"
  by (auto simp: moved_iff)

lemma keeps_refl [simp]: "keeps s s"
  by (simp add: keeps_def)

lemma keeps_trans: "keeps s s1 \<Longrightarrow> keeps s1 s2 \<Longrightarrow> keeps s s2"
  by (auto simp: keeps_def)

lemma moved_keeps: "moved s s' \<Longrightarrow> currentToken s \<le> currentToken s' \<Longrightarrow> keeps s s'"
  by (auto simp: moved_iff keeps_def)

lemma keeps_advance [simp]: "keeps s (advance s)"
  by (simp add: keeps_def advance_def)

lemma skipBlock_loop_ge: "i \<le> skipBlock_loop ts i bc"
proof (induction ts i bc rule: skipBlock_loop.induct)
  case (1 ts i bc)
  then show ?case
    by (subst skipBlock_loop.simps) (auto simp: Suc_leD)
qed

lemma keeps_skipBlock [simp]: "keeps s (skipBlock s)"
  by (simp add: keeps_def skipBlock_def skipBlock_loop_ge)

lemma moved_parseExpression: "moved s (snd (parseExpression s))"
  by (simp add: parseExpression_def split: option.splits)

lemma cursor_parseExpression: "currentToken s \<le> currentToken (snd (parseExpression s))"
  by (simp add: parseExpression_def advance_def split: option.splits)

lemma keeps_parseExpression: "keeps s (snd (parseExpression s))"
  by (simp add: moved_keeps moved_parseExpression cursor_parseExpression)

lemma evaluateCondition_eq:
  obtains l s1 op s2 r s3 where
    "moved s s1" "currentToken s \<le> currentToken s1"
    "moved s s2" "currentToken s \<le> currentToken s2"
    "moved s s3" "currentToken s \<le> currentToken s3"
    "evaluateCondition stod s =
     (if length (tokens s) \<le> currentToken s then Inr (False, s)
      else if length (tokens s1) \<le> currentToken s1 then Inr (False, s1)
      else if op = [] then Inr (evaluateBooleanValue l, s2)
      else (case evaluateComparison stod l op r of Inl e \<Rightarrow> Inl (e, s3) | Inr b \<Rightarrow> Inr (b, s3)))"
proof -
  obtain l s1 where p1: "parseExpression s = (l, s1)" by (cases "parseExpression s")
  have m1: "moved s s1" "currentToken s \<le> currentToken s1"
    using moved_parseExpression [of s] cursor_parseExpression [of s] p1 by simp_all
  define s2 where "s2 = (if tok_type (tokAt s1) = OPERATOR then advance s1 else s1)"
  define op where "op = (if tok_type (tokAt s1) = OPERATOR then tok_value (tokAt s1) else [])"
  have m2: "moved s s2" "currentToken s \<le> currentToken s2"
    using m1 by (auto simp: s2_def advance_def moved_iff)
  obtain r s3 where p3: "parseExpression s2 = (r, s3)" by (cases "parseExpression s2")
  have m3: "moved s s3" "currentToken s \<le> currentToken s3"
    using moved_parseExpression [of s2] cursor_parseExpression [of s2] p3 m2
    by (auto intro: moved_trans)
  have eq: "evaluateCondition stod s =
     (if length (tokens s) \<le> currentToken s then Inr (False, s)
      else if length (tokens s1) \<le> currentToken s1 then Inr (False, s1)
      else if op = [] then Inr (evaluateBooleanValue l, s2)
      else (case evaluateComparison stod l op r of Inl e \<Rightarrow> Inl (e, s3) | Inr b \<Rightarrow> Inr (b, s3)))"
    using p1 p3 by (cases "tok_type (tokAt s1) = OPERATOR")
      (simp_all add: evaluateCondition_def s2_def op_def)
  show thesis
    by (rule that [OF m1 m2 m3 eq])
qed

lemma evaluateCondition_Inr:
  assumes "evaluateCondition stod s = Inr (b, s')"
  shows "moved s s' \<and> currentToken s \<le> currentToken s'"
proof -
  obtain l s1 op s2 r s3 where m: "moved s s1" "currentToken s \<le> currentToken s1"
    "moved s s2" "currentToken s \<le> currentToken s2"
    "moved s s3" "currentToken s \<le> currentToken s3"
    and eq: "evaluateCondition stod s =
     (if length (tokens s) \<le> currentToken s then Inr (False, s)
      else if length (tokens s1) \<le> currentToken s1 then Inr (False, s1)
      else if op = [] then Inr (evaluateBooleanValue l, s2)
      else (case evaluateComparison stod l op r of Inl e \<Rightarrow> Inl (e, s3) | Inr b \<Rightarrow> Inr (b, s3)))"
    by (rule evaluateCondition_eq [of s stod]) blast
  have "s' = s \<or> s' = s1 \<or> s' = s2 \<or> s' = s3"
    using assms unfolding eq by (simp split: if_splits sum.splits)
  then show ?thesis using m by auto
qed

lemma evaluateCondition_Inl:
  assumes "evaluateCondition stod s = Inl (e, s')"
  shows "moved s s' \<and> currentToken s \<le> currentToken s'"
proof -
  obtain l s1 op s2 r s3 where m: "moved s s1" "currentToken s \<le> currentToken s1"
    "moved s s2" "currentToken s \<le> currentToken s2"
    "moved s s3" "currentToken s \<le> currentToken s3"
    and eq: "evaluateCondition stod s =
     (if length (tokens s) \<le> currentToken s then Inr (False, s)
      else if length (tokens s1) \<le> currentToken s1 then Inr (False, s1)
      else if op = [] then Inr (evaluateBooleanValue l, s2)
      else (case evaluateComparison stod l op r of Inl e \<Rightarrow> Inl (e, s3) | Inr b \<Rightarrow> Inr (b, s3)))"
    by (rule evaluateCondition_eq [of s stod]) blast
  have "s' = s \<or> s' = s1 \<or> s' = s2 \<or> s' = s3"
    using assms unfolding eq by (simp split: if_splits sum.splits)
  then show ?thesis using m by auto
qed

lemma include_loop_snd: "i \<le> snd (include_loop ts i l)"
proof (induction ts i l rule: include_loop.induct)
  case (1 ts i libName)
  then show ?case
    by (subst include_loop.simps) (auto simp: Suc_leD)
qed

lemma include_loop_ge: "include_loop ts i l = (x, j) \<Longrightarrow> i \<le> j"
  using include_loop_snd [of i ts l] by simp

lemma params_loop_snd: "i \<le> snd (params_loop ts i ps)"
proof (induction ts i ps rule: params_loop.induct)
  case (1 ts i params)
  then show ?case
    by (subst params_loop.simps) (auto simp: Suc_leD)
qed

lemma params_loop_ge: "params_loop ts i ps = (x, j) \<Longrightarrow> i \<le> j"
  using params_loop_snd [of i ts ps] by simp

lemma body_loop_snd: "i \<le> snd (body_loop ts i bc bd)"
proof (induction ts i bc bd rule: body_loop.induct)
  case (1 ts i braceCount bd)
  then show ?case
    by (subst body_loop.simps) (auto simp: Suc_leD Let_def)
qed

lemma body_loop_ge: "body_loop ts i bc bd = (x, j) \<Longrightarrow> i \<le> j"
  using body_loop_snd [of i ts bc bd] by simp

lemma args_loop_snd: "i \<le> snd (args_loop ts vs i as)"
proof (induction "length ts - i" arbitrary: i as)
  case 0
  then have "args_loop ts vs i as = (as, i)"
    by (subst args_loop.simps) simp
  then show ?case by simp
next
  case (Suc n)
  have n: "n = length ts - Suc i"
    using Suc.hyps(2) by arith
  have ih: "i \<le> snd (args_loop ts vs (Suc i) as')" for as'
    using Suc.hyps(1) [OF n, of as'] by (rule Suc_leD)
  show ?case
    by (subst args_loop.simps) (simp add: ih split: option.splits)
qed

lemma args_loop_ge: "args_loop ts vs i as = (x, j) \<Longrightarrow> i \<le> j"
  using args_loop_snd [of i ts vs as] by simp

lemma keeps_parseInclude: "keeps (advance s) (parseInclude s)"
  by (auto simp: parseInclude_def Let_def keeps_def advance_def valueIs_def inRange_def
      split: prod.splits dest: include_loop_ge)

lemma keeps_parseVariableDeclaration: "keeps (advance s) (parseVariableDeclaration s)"
proof -
  have k: "tokens s2 = tokens s1 \<and> cerr s2 = cerr s1 \<and> currentToken s1 \<le> currentToken s2"
    if "parseExpression s1 = (v, s2)" for s1 v s2
    using keeps_parseExpression [of s1] that by (simp add: keeps_def)
  show ?thesis
    by (auto simp: parseVariableDeclaration_def Let_def keeps_def advance_def valueIs_def
        inRange_def split: prod.splits dest!: k)
qed

lemma keeps_parseFunctionDeclaration: "keeps (advance s) (parseFunctionDeclaration s)"
  by (auto simp: parseFunctionDeclaration_def Let_def keeps_def advance_def valueIs_def
      inRange_def split: prod.splits dest!: params_loop_ge body_loop_ge)

lemma executeFunction_Inr:
  "executeFunction f as s = Inr s' \<Longrightarrow>
     tokens s' = tokens s \<and> cerr s' = cerr s \<and> currentToken s' = currentToken s"
  by (auto simp: executeFunction_def split: if_splits sum.splits)

lemma executeFunction_Inl:
  "executeFunction f as s = Inl (e, s') \<Longrightarrow> s' = s"
  by (auto simp: executeFunction_def split: if_splits sum.splits)

lemma parseStatement_Inr:
  "parseStatement s = Inr s' \<Longrightarrow> inRange s \<Longrightarrow> tok_type (tokAt s) = IDENTIFIER \<Longrightarrow>
     keeps (advance s) s'"
  by (auto simp: parseStatement_def Let_def keeps_def advance_def valueIs_def
      inRange_def split: prod.splits sum.splits if_splits
      dest!: args_loop_ge executeFunction_Inr)

lemma parseStatement_Inl:
  "parseStatement s = Inl (e, s') \<Longrightarrow> cerr s' = cerr s"
  by (auto simp: parseStatement_def Let_def advance_def valueIs_def
      inRange_def split: prod.splits sum.splits if_splits
      dest!: executeFunction_Inl)


lemma okres_Inr [simp]: "okres s (Inr s') = keeps s s'"
  by (simp add: okres_def)

lemma okres_Inl [simp]: "okres s (Inl (e, s')) = (cerr s' = cerr s)"
  by (simp add: okres_def)

lemma okres_trans: "keeps s s1 \<Longrightarrow> okres s1 r \<Longrightarrow> okres s r"
  by (cases r) (auto simp: keeps_def)

lemma moved_cerr: "moved s s' \<Longrightarrow> cerr s' = cerr s"
  by (auto simp: moved_iff)

lemma keeps_evaluateCondition:
  "evaluateCondition stod s = Inr (b, s') \<Longrightarrow> keeps s s'"
  by (blast dest: evaluateCondition_Inr intro: moved_keeps)

lemma cerr_evaluateCondition:
  "evaluateCondition stod s = Inl (e, s') \<Longrightarrow> cerr s' = cerr s"
  by (blast dest: evaluateCondition_Inl moved_cerr)

lemma keeps_advance2: "keeps s s1 \<Longrightarrow> keeps s (advance s1)"
  by (simp add: keeps_def advance_def)

lemma keeps_skipBlock2: "keeps s s1 \<Longrightarrow> keeps s (skipBlock s1)"
  by (blast intro: keeps_trans keeps_skipBlock)

lemma fine_Inr: "keeps s s' \<Longrightarrow> fine b s (Some (Inr s'))"
  by (simp add: fine_def)

lemma fine_Inl: "cerr s' = cerr s \<Longrightarrow> fine b s (Some (Inl (e, s')))"
  by (simp add: fine_def)

lemma fine_trans: "fine b1 s1 x \<Longrightarrow> keeps s s1 \<Longrightarrow> (b \<Longrightarrow> b1) \<Longrightarrow> fine b s x"
  by (cases x) (auto simp: fine_def intro: okres_trans)

lemma fine_closeBlock: "fine b s x \<Longrightarrow> fine b s (closeBlock x)"
proof (cases x)
  case None
  then show "fine b s x \<Longrightarrow> ?thesis" by (simp add: closeBlock_def)
next
  case (Some r)
  then show "fine b s x \<Longrightarrow> ?thesis"
    by (cases r) (auto simp: closeBlock_def fine_def intro: keeps_advance2)
qed

lemma fine_then:
  assumes "fine b s x"
    and "\<And>s'. x = Some (Inr s') \<Longrightarrow> keeps s s' \<Longrightarrow> fine b s (f s')"
  shows "fine b s (case x of None \<Rightarrow> None | Some (Inl e) \<Rightarrow> Some (Inl e) | Some (Inr s') \<Rightarrow> f s')"
proof (cases x)
  case None
  with assms(1) show ?thesis by simp
next
  case (Some r)
  show ?thesis
  proof (cases r)
    case (Inl a)
    with Some assms(1) show ?thesis by (simp add: fine_def)
  next
    case (Inr s')
    with Some assms(1) have "keeps s s'" by (simp add: fine_def)
    with Some Inr assms(2) show ?thesis by simp
  qed
qed

lemma rest_keeps: "keeps s s' \<Longrightarrow> rest s' \<le> rest s"
  by (auto simp: keeps_def rest_def)

lemma rest_advance: "keeps (advance s) s' \<Longrightarrow> inRange s \<Longrightarrow> rest s' < rest s"
  by (auto simp: keeps_def rest_def advance_def inRange_def)

lemma valueIs_inRange: "valueIs s v \<Longrightarrow> inRange s"
  by (simp add: valueIs_def)

lemma inRange_advance: "inRange (advance s) \<Longrightarrow> inRange s"
  by (simp add: inRange_def advance_def)

lemma parseIf_step:
  assumes IHb: "\<And>bc s. fine (2 * rest s + 2 \<le> n) s (parseBlock_loop n stod bc s)"
    and IHc: "\<And>e s. fine (2 * rest s + 1 \<le> n) s (ifChain n stod e s)"
  shows "fine (2 * rest s + 1 \<le> Suc n) (advance s) (parseIfStatement (Suc n) stod s)"
proof (cases "valueIs (advance s) ''(''")
  case False
  then show ?thesis by (simp add: fine_Inr)
next
  case paren: True
  then have range: "inRange s"
    by (blast intro: valueIs_inRange inRange_advance)
  show ?thesis
  proof (cases "evaluateCondition stod (advance (advance s))")
    case (Inl a)
    obtain e s' where a: "a = (e, s')" by (cases a)
    from Inl a have "cerr s' = cerr (advance s)"
      by (auto dest!: cerr_evaluateCondition simp: advance_def)
    with paren Inl a show ?thesis by (simp add: fine_Inl)
  next
    case (Inr a)
    obtain c s3 where a: "a = (c, s3)" by (cases a)
    from Inr a have k3: "keeps (advance s) s3"
      by (blast intro: keeps_trans keeps_advance keeps_evaluateCondition)
    show ?thesis
    proof (cases "valueIs s3 '')'' \<and> valueIs (advance s3) ''{''")
      case False
      with paren Inr a k3 show ?thesis
        by (auto simp: keeps_advance2 fine_Inr)
    next
      case True
      let ?s5 = "advance (advance s3)"
      have k5: "keeps (advance s) ?s5"
        using k3 by (intro keeps_advance2)
      have r5: "rest s' < rest s" if "keeps ?s5 s'" for s'
        using that k5 range by (blast intro: rest_advance keeps_trans)
      have chain: "fine (2 * rest s + 1 \<le> Suc n) (advance s) (ifChain n stod e s')"
        if "keeps ?s5 s'" for e s'
        using IHc [of s' e] 
      proof (rule fine_trans)
        show "keeps (advance s) s'" using k5 that by (rule keeps_trans)
        show "2 * rest s' + 1 \<le> n" if "2 * rest s + 1 \<le> Suc n"
          using r5 [OF \<open>keeps ?s5 s'\<close>] that by arith
      qed
      have blk: "fine (2 * rest s + 1 \<le> Suc n) (advance s) (closeBlock (parseBlock_loop n stod 1 ?s5))"
      proof (rule fine_closeBlock, rule fine_trans [OF IHb k5])
        show "2 * rest ?s5 + 2 \<le> n" if "2 * rest s + 1 \<le> Suc n"
          using r5 [of ?s5] that by simp
      qed
      show ?thesis
      proof (cases c)
        case False
        with paren Inr a True have "parseIfStatement (Suc n) stod s
            = ifChain n stod False (skipBlock ?s5)"
          by simp
        then show ?thesis using chain [of "skipBlock ?s5" False] by simp
      next
        case c: True
        with paren Inr a True have "parseIfStatement (Suc n) stod s
            = (case closeBlock (parseBlock_loop n stod 1 ?s5) of
                 None \<Rightarrow> None
               | Some (Inl e) \<Rightarrow> Some (Inl e)
               | Some (Inr s6) \<Rightarrow> ifChain n stod True s6)"
          by simp
        moreover have "fine (2 * rest s + 1 \<le> Suc n) (advance s) \<dots>"
        proof (rule fine_then [OF blk])
          fix s' assume "closeBlock (parseBlock_loop n stod 1 ?s5) = Some (Inr s')"
          then have "keeps ?s5 s'"
            using fine_closeBlock [OF IHb [of ?s5 1]] by (simp add: fine_def)
          then show "fine (2 * rest s + 1 \<le> Suc n) (advance s) (ifChain n stod True s')"
            by (rule chain)
        qed
        ultimately show ?thesis by simp
      qed
    qed
  qed
qed

lemma ifChain_step:
  assumes IHb: "\<And>bc s. fine (2 * rest s + 2 \<le> n) s (parseBlock_loop n stod bc s)"
    and IHc: "\<And>e s. fine (2 * rest s + 1 \<le> n) s (ifChain n stod e s)"
  shows "fine (2 * rest s + 1 \<le> Suc n) s (ifChain (Suc n) stod executed s)"
proof (cases "inRange s \<and> tok_type (tokAt s) = KEYWORD \<and> tok_value (tokAt s) = ''else''")
  case False
  then show ?thesis by (auto simp: fine_Inr)
next
  case at_else: True
  then have range: "inRange s" by simp
  let ?b = "2 * rest s + 1 \<le> Suc n"
  have r: "rest s' < rest s" if "keeps (advance s) s'" for s'
    using that range by (rule rest_advance)
  have chain: "fine ?b s (ifChain n stod e s')" if "keeps (advance s) s'" for e s'
    using IHc [of s' e]
  proof (rule fine_trans)
    show "keeps s s'" using keeps_advance that by (rule keeps_trans)
    show "2 * rest s' + 1 \<le> n" if ?b
      using r [OF \<open>keeps (advance s) s'\<close>] that by arith
  qed
  have blk: "fine ?b s (closeBlock (parseBlock_loop n stod 1 s'))"
    if "keeps (advance s) s'" for s'
  proof (rule fine_closeBlock, rule fine_trans [OF IHb])
    show "keeps s s'" using keeps_advance that by (rule keeps_trans)
    show "2 * rest s' + 2 \<le> n" if ?b
      using r [OF \<open>keeps (advance s) s'\<close>] that by arith
  qed
  have blk_keeps: "keeps s' s''"
    if "closeBlock (parseBlock_loop n stod 1 s') = Some (Inr s'')" for s' s''
    using fine_closeBlock [OF IHb [of s' 1]] that by (simp add: fine_def)
  let ?s1 = "advance s"
  show ?thesis
  proof (cases "valueIs ?s1 ''if''")
    case no_if: False
    show ?thesis
    proof (cases "valueIs ?s1 ''{''")
      case False
      with at_else no_if show ?thesis using chain [of ?s1 executed] by simp
    next
      case True
      show ?thesis
      proof (cases executed)
        case True
        with at_else no_if \<open>valueIs ?s1 ''{''\<close> show ?thesis
          by (simp add: fine_Inr keeps_trans [OF keeps_advance] keeps_skipBlock2 keeps_advance2)
      next
        case False
        with at_else no_if \<open>valueIs ?s1 ''{''\<close> show ?thesis
          using blk [of "advance ?s1"] by (simp add: keeps_advance2)
      qed
    qed
  next
    case is_if: True
    show ?thesis
    proof (cases "valueIs (advance ?s1) ''(''")
      case False
      with at_else is_if show ?thesis
        using chain [of "advance ?s1" executed] by (simp add: keeps_advance2)
    next
      case paren: True
      show ?thesis
      proof (cases "evaluateCondition stod (advance (advance ?s1))")
        case (Inl a)
        obtain e s' where a: "a = (e, s')" by (cases a)
        from Inl a have "cerr s' = cerr s"
          by (auto dest!: cerr_evaluateCondition simp: advance_def)
        with at_else is_if paren Inl a show ?thesis by (simp add: fine_Inl)
      next
        case (Inr a)
        obtain c s4 where a: "a = (c, s4)" by (cases a)
        from Inr a have k4: "keeps ?s1 s4"
          by (blast intro: keeps_trans keeps_advance keeps_evaluateCondition)
        show ?thesis
        proof (cases "valueIs s4 '')''")
          case False
          with at_else is_if paren Inr a show ?thesis
            using chain [OF k4, of executed] by simp
        next
          case close: True
          show ?thesis
          proof (cases "valueIs (advance s4) ''{''")
            case False
            with at_else is_if paren Inr a close show ?thesis
              using chain [OF keeps_advance2 [OF k4], of executed] by simp
          next
            case brace: True
            let ?s6 = "advance (advance s4)"
            have k6: "keeps ?s1 ?s6"
              using k4 by (intro keeps_advance2)
            show ?thesis
            proof (cases "\<not> executed \<and> c")
              case False
              with at_else is_if paren Inr a close brace
              have "ifChain (Suc n) stod executed s = ifChain n stod executed (skipBlock ?s6)"
                by auto
              then show ?thesis
                using chain [OF keeps_skipBlock2 [OF k6], of executed] by simp
            next
              case True
              with at_else is_if paren Inr a close brace
              have "ifChain (Suc n) stod executed s
                = (case closeBlock (parseBlock_loop n stod 1 ?s6) of
                     None \<Rightarrow> None
                   | Some (Inl e) \<Rightarrow> Some (Inl e)
                   | Some (Inr s7) \<Rightarrow> ifChain n stod True s7)"
                by simp
              moreover have "fine ?b s \<dots>"
              proof (rule fine_then [OF blk [OF k6]])
                fix s' assume "closeBlock (parseBlock_loop n stod 1 ?s6) = Some (Inr s')"
                then have "keeps ?s6 s'" by (rule blk_keeps)
                with k6 have "keeps ?s1 s'" by (rule keeps_trans)
                then show "fine ?b s (ifChain n stod True s')" by (rule chain)
              qed
              ultimately show ?thesis by simp
            qed
          qed
        qed
      qed
    qed
  qed
qed

lemma parseBlock_loop_step:
  assumes IHb: "\<And>bc s. fine (2 * rest s + 2 \<le> n) s (parseBlock_loop n stod bc s)"
    and IHi: "\<And>s. fine (2 * rest s + 1 \<le> n) (advance s) (parseIfStatement n stod s)"
  shows "fine (2 * rest s + 2 \<le> Suc n) s (parseBlock_loop (Suc n) stod braceCount s)"
proof (cases "inRange s \<and> 0 < braceCount")
  case False
  then show ?thesis by (auto simp: fine_Inr)
next
  case True
  then have range: "inRange s" by simp
  let ?b = "2 * rest s + 2 \<le> Suc n"
  let ?bc = "countBrace (tok_value (tokAt s)) braceCount"
  have loop: "fine ?b s (parseBlock_loop n stod bc s')" if "keeps (advance s) s'" for bc s'
    using IHb [of s' bc]
  proof (rule fine_trans)
    show "keeps s s'" using keeps_advance that by (rule keeps_trans)
    show "2 * rest s' + 2 \<le> n" if ?b
      using rest_advance [OF \<open>keeps (advance s) s'\<close> range] that by arith
  qed
  show ?thesis
  proof (cases "0 < ?bc")
    case False
    have "fine ?b s (parseBlock_loop n stod ?bc s)"
    proof (cases n)
      case 0
      then show ?thesis by (simp add: fine_def)
    next
      case (Suc m)
      with False show ?thesis by (simp add: fine_Inr)
    qed
    with True False show ?thesis by (simp add: Let_def)
  next
    case pos: True
    show ?thesis
    proof (cases "tok_type (tokAt s) = KEYWORD")
      case kw: True
      show ?thesis
      proof (cases "tok_value (tokAt s) = ''if''")
        case False
        with True pos kw show ?thesis
          using loop [OF keeps_parseVariableDeclaration, of ?bc]
            loop [OF keeps_parseFunctionDeclaration, of ?bc]
            loop [OF keeps_refl, of ?bc]
          by (auto simp: Let_def)
      next
        case is_if: True
        let ?bc2 = "countBrace ''if'' braceCount"
        from True pos kw is_if have "parseBlock_loop (Suc n) stod braceCount s
          = (case parseIfStatement n stod s of
               None \<Rightarrow> None
             | Some (Inl e) \<Rightarrow> Some (Inl e)
             | Some (Inr s') \<Rightarrow> parseBlock_loop n stod ?bc2 s')"
          by (simp add: Let_def isTypeName_def)
        moreover have "fine ?b s \<dots>"
        proof (rule fine_then)
          show "fine ?b s (parseIfStatement n stod s)"
            using IHi [of s] keeps_advance by (rule fine_trans) simp
          fix s' assume "parseIfStatement n stod s = Some (Inr s')"
          then have "keeps (advance s) s'"
            using IHi [of s] by (simp add: fine_def)
          then show "fine ?b s (parseBlock_loop n stod ?bc2 s')" by (rule loop)
        qed
        ultimately show ?thesis by simp
      qed
    next
      case no_kw: False
      show ?thesis
      proof (cases "tok_type (tokAt s) = IDENTIFIER")
        case False
        with True pos no_kw show ?thesis
          using loop [OF keeps_refl, of ?bc] by (simp add: Let_def)
      next
        case ident: True
        show ?thesis
        proof (cases "parseStatement s")
          case (Inl a)
          obtain e s' where a: "a = (e, s')" by (cases a)
          from Inl a have "cerr s' = cerr s" by (auto dest: parseStatement_Inl)
          with True pos no_kw ident Inl a show ?thesis
            by (simp add: Let_def fine_Inl)
        next
          case (Inr s')
          then have "keeps (advance s) s'"
            using range ident by (rule parseStatement_Inr)
          with True pos no_kw ident Inr show ?thesis
            using loop [of s' ?bc] by (simp add: Let_def)
        qed
      qed
    qed
  qed
qed

lemma fuel_all:
  "(\<forall>s. fine (2 * rest s + 1 \<le> n) (advance s) (parseIfStatement n stod s)) \<and>
   (\<forall>e s. fine (2 * rest s + 1 \<le> n) s (ifChain n stod e s)) \<and>
   (\<forall>bc s. fine (2 * rest s + 2 \<le> n) s (parseBlock_loop n stod bc s))"
proof (induction n)
  case 0
  show ?case by (simp add: fine_def)
next
  case (Suc n)
  show ?case
  proof (intro conjI allI)
    fix s show "fine (2 * rest s + 1 \<le> Suc n) (advance s) (parseIfStatement (Suc n) stod s)"
      using Suc by (intro parseIf_step) blast+
  next
    fix e s show "fine (2 * rest s + 1 \<le> Suc n) s (ifChain (Suc n) stod e s)"
      using Suc by (intro ifChain_step) blast+
  next
    fix bc s show "fine (2 * rest s + 2 \<le> Suc n) s (parseBlock_loop (Suc n) stod bc s)"
      using Suc by (intro parseBlock_loop_step) blast+
  qed
qed


lemma exec_loop_fine:
  "fine (2 * rest s + 2 \<le> n) s (exec_loop n stod mainEnd s)"
proof (induction n arbitrary: s)
  case 0
  show ?case by (simp add: fine_def)
next
  case (Suc n)
  let ?b = "2 * rest s + 2 \<le> Suc n"
  show ?case
  proof (cases "inRange s \<and> currentToken s \<le> mainEnd \<and> tok_type (tokAt s) \<noteq> END_OF_FILE")
    case False
    then show ?thesis by (auto simp: fine_Inr)
  next
    case True
    then have range: "inRange s" by simp
    have loop: "fine ?b s (exec_loop n stod mainEnd s')" if "keeps (advance s) s'" for s'
      using Suc [of s']
    proof (rule fine_trans)
      show "keeps s s'" using keeps_advance that by (rule keeps_trans)
      show "2 * rest s' + 2 \<le> n" if ?b
        using rest_advance [OF \<open>keeps (advance s) s'\<close> range] that by arith
    qed
    have IHi: "fine (2 * rest s + 1 \<le> n) (advance s) (parseIfStatement n stod s)"
      using fuel_all [of n stod] by blast
    show ?thesis
    proof (cases "tok_type (tokAt s) = KEYWORD \<and> tok_value (tokAt s) = ''if''")
      case is_if: True
      with True have "exec_loop (Suc n) stod mainEnd s
          = (case parseIfStatement n stod s of
               None \<Rightarrow> None
             | Some (Inl e) \<Rightarrow> Some (Inl e)
             | Some (Inr s') \<Rightarrow> exec_loop n stod mainEnd s')"
        by (simp add: isTypeName_def)
      moreover have "fine ?b s \<dots>"
      proof (rule fine_then)
        show "fine ?b s (parseIfStatement n stod s)"
          using IHi keeps_advance by (rule fine_trans) simp
        fix s' assume "parseIfStatement n stod s = Some (Inr s')"
        then have "keeps (advance s) s'"
          using IHi by (simp add: fine_def)
        then show "fine ?b s (exec_loop n stod mainEnd s')" by (rule loop)
      qed
      ultimately show ?thesis by simp
    next
      case no_if: False
      show ?thesis
      proof (cases "tok_type (tokAt s) = IDENTIFIER")
        case False
        with True no_if show ?thesis
          using loop [OF keeps_parseVariableDeclaration]
            loop [OF keeps_parseFunctionDeclaration]
            loop [OF keeps_parseInclude]
            loop [OF keeps_refl]
          by auto
      next
        case ident: True
        show ?thesis
        proof (cases "parseStatement s")
          case (Inl a)
          obtain e s' where a: "a = (e, s')" by (cases a)
          from Inl a have "cerr s' = cerr s" by (auto dest: parseStatement_Inl)
          with True ident Inl a show ?thesis
            by (simp add: fine_Inl)
        next
          case (Inr s')
          then have "keeps (advance s) s'"
            using range ident by (rule parseStatement_Inr)
          with True ident Inr show ?thesis
            using loop [of s'] by simp
        qed
      qed
    qed
  qed
qed

lemma fine_total: "fine b s x \<Longrightarrow> b \<Longrightarrow> x \<noteq> None"
  by (cases x) (simp_all add: fine_def)

lemma fine_cerr: "fine b s x \<Longrightarrow> x = Some (Inl (e, s')) \<Longrightarrow> cerr s' = cerr s"
  by (simp add: fine_def)

lemma exec_loop_total:
  "exec_loop (2 * length toks + 2) stod me (s\<lparr>tokens := toks, currentToken := ms\<rparr>) \<noteq> None"
proof (rule fine_total [OF exec_loop_fine])
  show "2 * rest (s\<lparr>tokens := toks, currentToken := ms\<rparr>) + 2 \<le> 2 * length toks + 2"
    by (simp add: rest_def)
qed

lemma parseAndExecute_total: "parseAndExecute stod toks s \<noteq> None"
  using exec_loop_total [where toks = toks and stod = stod and s = s]
  by (simp add: parseAndExecute_def Let_def split: option.splits del: exec_loop.simps)

lemma parseAndExecute_Inl:
  assumes "parseAndExecute stod toks s = Some (Inl (e, s'))"
  shows "cerr s' = cerr s"
proof -
  have "cerr s' = cerr s"
    if "exec_loop (2 * length toks + 2) stod me (s\<lparr>tokens := toks, currentToken := ms\<rparr>)
          = Some (Inl (e, s'))" for ms me
    using fine_cerr [OF exec_loop_fine that] by simp
  with assms show ?thesis
    by (auto simp: parseAndExecute_def Let_def report_def split: option.splits if_splits
        simp del: exec_loop.simps)
qed

lemma ifChain_executed_moved:
  "ifChain n stod True s = Some (Inr s') \<Longrightarrow> moved s s'"
proof (induction n arbitrary: s)
  case 0
  then show ?case by simp
next
  case (Suc n)
  have IH: "moved s s'" if "ifChain n stod True s1 = Some (Inr s')" "moved s s1" for s1
    using Suc.IH [OF that(1)] that(2) by (blast intro: moved_trans)
  have adv: "moved s (advance s1)" if "moved s s1" for s1
    using that moved_advance by (rule moved_trans)
  have skp: "moved s (skipBlock s1)" if "moved s s1" for s1
    using that moved_skipBlock by (rule moved_trans)
  have cond: "moved s s2" if "evaluateCondition stod s1 = Inr (c, s2)" "moved s s1" for s1 s2 c
    using that by (blast dest: evaluateCondition_Inr intro: moved_trans)
  from Suc.prems show ?case
    by (auto simp: Let_def split: if_splits sum.splits prod.splits
        intro!: IH adv skp intro: cond)
qed


section \<open>The example runs\<close>

lemma find_last_of_prog: "find_last_of ''prog.crm'' CHR ''.'' = 4"
  by (simp add: find_last_of_def upt_rec)

lemma extensionOf_prog: "extensionOf ''prog.crm'' = ''crm''"
  by (simp add: extensionOf_def extension_pos_def find_last_of_prog)

lemma crimson_prog:
  "crimson fs ''prog.crm'' = observe (map_option finish (runFile stod_dec fs ''prog.crm'' (initial [])))"
  by (simp add: crimson_def main_def extensionOf_prog)

lemma run_if_chain:
  "observe (map_option finish (runFile stod_dec (crm_file prog_if_chain) ''prog.crm'' (initial [])))
     = Some (Exited 0, ''B'' @ [newline], [])"
  by code_simp

lemma run_else_if_evaluated:
  "observe (map_option finish (runFile stod_dec (crm_file prog_else_if_evaluated) ''prog.crm'' (initial [])))
     = Some (Terminated invalid_argument, ''A'' @ [newline], [])"
  by code_simp

lemma run_no_main:
  "observe (map_option finish (runFile stod_dec (crm_file prog_no_main) ''prog.crm'' (initial [])))
     = Some (Exited 0, [], noMainMessage @ [newline])"
  by code_simp

lemma run_include:
  "observe (map_option finish (runFile stod_dec (crm_file prog_include) ''prog.crm'' (initial [])))
     = Some (Exited 0, [], [])"
  by code_simp

lemma run_bad_compare:
  "observe (map_option finish (runFile stod_dec (crm_file prog_bad_compare) ''prog.crm'' (initial [])))
     = Some (Terminated invalid_argument, [], [])"
  by code_simp

lemma run_text_compare:
  "observe (map_option finish (runFile stod_dec (crm_file prog_text_compare) ''prog.crm'' (initial [])))
     = Some (Exited 0, ''neq'' @ [newline], [])"
  by code_simp

lemma run_unknown_call:
  "observe (map_option finish (runFile stod_dec (crm_file prog_unknown_call) ''prog.crm'' (initial [])))
     = Some (Exited 0, ''after'' @ [newline], [])"
  by code_simp

lemma run_outside:
  "observe (map_option finish (runFile stod_dec (crm_file prog_outside) ''prog.crm'' (initial [])))
     = Some (Exited 0, [], outsideMessage 1 @ [newline])"
  by code_simp

lemma run_function:
  "map_option (\<lambda>(st, s). (st, cout s, map_option parameters (functionTable s ''f''),
       map_option body (functionTable s ''f'')))
     (map_option finish (runFile stod_dec (crm_file prog_function) ''prog.crm'' (initial [])))
     = Some (Exited 0, ''Executing function: f'' @ [newline], Some [''a''], Some [])"
  by code_simp

lemma find_last_of_crm: "find_last_of ''crm'' CHR ''.'' = npos"
  by (simp add: find_last_of_def upt_rec)

lemma extensionOf_crm: "extensionOf ''crm'' = ''crm''"
  by (simp add: extensionOf_def extension_pos_def find_last_of_crm npos_def)

lemma run_ran:
  "observe (map_option finish (runFile stod_dec [''crm'' \<mapsto> prog_ran] ''crm'' (initial [])))
     = Some (Exited 0, ''ran'' @ [newline], [])"
  by code_simp

section \<open>Claims\<close>



text \<open>
  Claim C3 says that the source line \<^verbatim>\<open>#include <io>\<close> prints an inclusion notice
  naming \<^verbatim>\<open>io\<close>. Run on a file with that line before a well-formed empty main, the
  interpreter ends with exit code 0 and has written nothing at all: the lexer makes the
  whole line one keyword token, which is not the text \<^verbatim>\<open>#include\<close> the interpreter
  looks for, and the statement loop starts at main.
\<close>

theorem include_line_prints_no_notice:
  "crimson (crm_file prog_include) ''prog.crm'' = Some (Exited 0, [], [])"
  by (simp only: crimson_prog run_include)

text \<open>
  Claim C6: for every pair of operand texts, \<^verbatim>\<open>==\<close> and \<^verbatim>\<open>!=\<close> compare the texts as
  they are, with no numeric normalisation: \<^verbatim>\<open>==\<close> is true exactly when the two texts are
  the same string. The literal \<^verbatim>\<open>"1.0"\<close> is not equal to \<^verbatim>\<open>"1"\<close>, and the test program
  of the specification prints \<^verbatim>\<open>neq\<close>.
\<close>

theorem comparison_by_text:
  "evaluateComparison stod left ''=='' right = Inr (left = right) \<and>
   evaluateComparison stod left ''!='' right = Inr (left \<noteq> right) \<and>
   evaluateComparison stod (quoted ''1.0'') ''=='' (quoted ''1'') = Inr False \<and>
   crimson (crm_file prog_text_compare) ''prog.crm'' = Some (Exited 0, ''neq'' @ [newline], [])"
  by (simp add: evaluateComparison_def quoted_def crimson_prog run_text_compare)

text \<open>
  Claim C7 says that \<^verbatim>\<open>parseExpression\<close> advances the cursor by exactly one token unless
  the cursor is at the end of the input. On a closing parenthesis that is followed by
  another token it returns the empty text and leaves the cursor where it was.
\<close>

theorem parseExpression_leaves_other_tokens:
  "currentToken paren_state < length (tokens paren_state) \<and>
   tok_type (tokAt paren_state) = DELIMITER \<and>
   fst (parseExpression paren_state) = [] \<and>
   currentToken (snd (parseExpression paren_state)) = currentToken paren_state"
  by (simp add: paren_state_def initial_def parseExpression_def tokAt_def mkToken_def)

text \<open>
  Claim C7, amended: \<^verbatim>\<open>parseExpression\<close> is total. It returns the text of a string
  literal, of a number literal, of a variable (its stored text, or its own name when it
  is not bound) or of the keywords \<^verbatim>\<open>true\<close> and \<^verbatim>\<open>false\<close>, and the empty text for every
  other token and at the end of the input. It advances the cursor by one token exactly
  when it returns the text of a token of those four kinds, and changes nothing otherwise;
  it never changes anything but the cursor.
\<close>

theorem parseExpression_text_and_cursor:
  "fst (parseExpression s) =
     (if \<not> inRange s then []
      else (case tok_type (tokAt s) of
              STRING \<Rightarrow> tok_value (tokAt s)
            | NUMBER \<Rightarrow> tok_value (tokAt s)
            | IDENTIFIER \<Rightarrow>
                (case variables s (tok_value (tokAt s)) of
                   Some v \<Rightarrow> var_value v
                 | None \<Rightarrow> tok_value (tokAt s))
            | KEYWORD \<Rightarrow>
                (if tok_value (tokAt s) = ''true'' \<or> tok_value (tokAt s) = ''false''
                 then tok_value (tokAt s) else [])
            | _ \<Rightarrow> [])) \<and>
   snd (parseExpression s) =
     (if inRange s \<and>
         (tok_type (tokAt s) \<in> {STRING, NUMBER, IDENTIFIER} \<or>
          tok_type (tokAt s) = KEYWORD \<and>
            (tok_value (tokAt s) = ''true'' \<or> tok_value (tokAt s) = ''false''))
      then s\<lparr>currentToken := currentToken s + 1\<rparr> else s)"
  by (cases "tok_type (tokAt s)")
    (auto simp: parseExpression_def inRange_def advance_def split: option.splits)

text \<open>
  Claim C8 says that the body tokens of a declared function are captured into its entry
  of the function table. After \<^verbatim>\<open>void f(a) { crym("x"); }\<close> and the call \<^verbatim>\<open>f(1);\<close> inside
  main, the entry of \<^verbatim>\<open>f\<close> has the parameter \<^verbatim>\<open>a\<close> and an empty body; the call has written
  the execution marker and nothing else.
\<close>

theorem declared_body_is_dropped:
  "map_option (\<lambda>(st, s). (st, cout s, map_option parameters (functionTable s ''f''),
       map_option body (functionTable s ''f'')))
     (main stod_dec (crm_file prog_function) [''crimson'', ''prog.crm''] [])
     = Some (Exited 0, ''Executing function: f'' @ [newline], Some [''a''], Some [])"
  by (simp add: main_def extensionOf_prog run_function)

text \<open>
  Claim C9 says that a path that does not end in \<^verbatim>\<open>.crm\<close> is rejected before the file is
  loaded. The path \<^verbatim>\<open>crm\<close> has no dot; the text after its last dot is computed as the whole
  path, the test passes, and the file is loaded and run.
\<close>

theorem path_crm_is_accepted:
  "extensionOf ''crm'' = ''crm'' \<and>
   crimson [''crm'' \<mapsto> prog_ran] ''crm'' = Some (Exited 0, ''ran'' @ [newline], [])"
  by (simp add: extensionOf_crm crimson_def main_def run_ran)

end
